theory Spec2Isabelle
  imports Main
begin

section \<open>Values and exceptions\<close>

text \<open>
  A candle is the 6-tuple built in \<open>fetch_klines\<close> and \<open>on_message\<close> of \<open>chart.py\<close>:
  \<open>(open time, open, high, low, close, volume)\<close>. Field 0 is stored as it was received
  (type \<open>'v\<close>, a decoded JSON value); the code only ever compares it with \<open>==\<close>. Fields
  1 to 5 are the results of Python's \<open>float()\<close> (type \<open>'f\<close>); the code carries them
  around and never computes with them in the data path.
\<close>

type_synonym ('v, 'f) candle = "'v \<times> 'f \<times> 'f \<times> 'f \<times> 'f \<times> 'f"

definition open_time :: "('v, 'f) candle \<Rightarrow> 'v" where
  \<comment> \<open>\<open>candle[0]\<close>\<close>
  "open_time c = fst c"

text \<open>The Python exceptions that the modelled statements can raise.\<close>

datatype exn =
    RequestException
  | HTTPError
  | JSONDecodeError
  | KeyError
  | IndexError
  | ValueError

definition then_r :: "exn + 'a \<Rightarrow> ('a \<Rightarrow> exn + 'b) \<Rightarrow> exn + 'b" where
  \<comment> \<open>sequencing: an exception raised by the first statement skips the rest\<close>
  "then_r r f = (case r of Inl e \<Rightarrow> Inl e | Inr x \<Rightarrow> f x)"

definition py_float :: "('v \<Rightarrow> 'f option) \<Rightarrow> 'v \<Rightarrow> exn + 'f" where
  \<comment> \<open>\<open>float(x)\<close>: the builtin is a parameter, \<open>None\<close> where it raises
      (\<open>ValueError\<close>; a \<open>TypeError\<close> is counted under the same name)\<close>
  "py_float to_float x = (case to_float x of None \<Rightarrow> Inl ValueError | Some y \<Rightarrow> Inr y)"

definition py_index :: "'a list \<Rightarrow> nat \<Rightarrow> exn + 'a" where
  \<comment> \<open>\<open>xs[i]\<close> for a literal index \<open>i \<ge> 0\<close>\<close>
  "py_index xs i = (if i < length xs then Inr (xs ! i) else Inl IndexError)"

definition py_key :: "(string \<times> 'v) list \<Rightarrow> string \<Rightarrow> exn + 'v" where
  \<comment> \<open>\<open>d[k]\<close> on a dict\<close>
  "py_key d k = (case map_of d k of None \<Rightarrow> Inl KeyError | Some x \<Rightarrow> Inr x)"

section \<open>The bounded deque\<close>

definition maxlen :: nat where
  \<comment> \<open>\<open>deque(maxlen=60)\<close> in \<open>ChartPanel.__init__\<close>\<close>
  "maxlen = 60"

definition deque_append :: "'a \<Rightarrow> 'a list \<Rightarrow> 'a list" where
  \<comment> \<open>\<open>deque.append\<close>: add on the right, then drop the leftmost element when the
      length has passed \<open>maxlen\<close>\<close>
  "deque_append x d = (let d' = d @ [x] in if maxlen < length d' then tl d' else d')"

definition deque_extend :: "'a list \<Rightarrow> 'a list \<Rightarrow> 'a list" where
  \<comment> \<open>\<open>deque.extend(xs)\<close>: append the elements of \<open>xs\<close> one by one\<close>
  "deque_extend xs d = fold deque_append xs d"

section \<open>The REST helper\<close>

text \<open>
  The arguments \<open>symbol\<close>, \<open>interval\<close> and \<open>limit\<close> of \<open>fetch_klines\<close> only go
  into the request. What the function returns depends on the answer of the network to
  \<open>requests.get(url, params, timeout=5)\<close>, which is the input of the model: no response
  at all (connection error or timeout, \<open>requests.get\<close> raises), or a response with a
  status code and a body. The body either is not JSON (\<open>response.json()\<close> raises) or is
  an array of rows, each row an array of values; bodies of another JSON shape are not
  covered.
\<close>

datatype 'v payload = NotJSON | Rows "'v list list"

datatype 'v http = NoResponse | Response nat "'v payload"

definition raise_for_status :: "nat \<Rightarrow> exn + unit" where
  \<comment> \<open>\<open>response.raise_for_status()\<close> raises for the 4xx and 5xx codes\<close>
  "raise_for_status status = (if 400 \<le> status \<and> status < 600 then Inl HTTPError else Inr ())"

definition format_candle :: "('v \<Rightarrow> 'f option) \<Rightarrow> 'v list \<Rightarrow> exn + ('v, 'f) candle" where
  \<comment> \<open>the tuple built in the loop body of \<open>fetch_klines\<close>, evaluated left to right\<close>
  "format_candle to_float candle =
     then_r (py_index candle 0) (\<lambda>t.
     then_r (then_r (py_index candle 1) (py_float to_float)) (\<lambda>opn.
     then_r (then_r (py_index candle 2) (py_float to_float)) (\<lambda>high.
     then_r (then_r (py_index candle 3) (py_float to_float)) (\<lambda>low.
     then_r (then_r (py_index candle 4) (py_float to_float)) (\<lambda>close.
     then_r (then_r (py_index candle 5) (py_float to_float)) (\<lambda>volume.
     Inr (t, opn, high, low, close, volume)))))))"

fun format_loop ::
  "('v \<Rightarrow> 'f option) \<Rightarrow> 'v list list \<Rightarrow> ('v, 'f) candle list \<Rightarrow> exn + ('v, 'f) candle list"
where
  \<comment> \<open>\<open>for candle in data: formatted_data.append(...)\<close>\<close>
  "format_loop to_float [] formatted_data = Inr formatted_data"
| "format_loop to_float (candle # rest) formatted_data =
     then_r (format_candle to_float candle) (\<lambda>c.
       format_loop to_float rest (formatted_data @ [c]))"

definition fetch_try :: "('v \<Rightarrow> 'f option) \<Rightarrow> 'v http \<Rightarrow> exn + ('v, 'f) candle list" where
  \<comment> \<open>the body of the \<open>try\<close> block of \<open>fetch_klines\<close>\<close>
  "fetch_try to_float response =
     (case response of
        NoResponse \<Rightarrow> Inl RequestException
      | Response status body \<Rightarrow>
          then_r (raise_for_status status) (\<lambda>_.
            case body of
              NotJSON \<Rightarrow> Inl JSONDecodeError
            | Rows rows \<Rightarrow> format_loop to_float rows []))"

definition fetch_klines :: "('v \<Rightarrow> 'f option) \<Rightarrow> 'v http \<Rightarrow> exn + ('v, 'f) candle list" where
  \<comment> \<open>\<open>except Exception as e: print(...); return []\<close>. The result is the outcome of the
      call: \<open>Inr\<close> a returned list, \<open>Inl\<close> an exception that leaves the function.\<close>
  "fetch_klines to_float response =
     (case fetch_try to_float response of
        Inl e \<Rightarrow> Inr []
      | Inr formatted_data \<Rightarrow> Inr formatted_data)"

section \<open>The chart panel\<close>

text \<open>
  The fields of \<open>ChartPanel\<close> that the data path reads and writes. A connection
  (\<open>websocket.WebSocketApp\<close> object) is represented by a number standing for its
  identity. Two effects on the outside are recorded in the state: the callbacks handed to
  \<open>self.master.after(delay, callback)\<close>, in the order of the calls, and the connections
  on which \<open>close()\<close> was called.
\<close>

type_synonym conn = nat

datatype callback = DrawChart | StartWebsocket

record ('v, 'f) ChartPanel =
  is_active :: bool
  ws :: "conn option"
  data :: "('v, 'f) candle list"
  scheduled :: "(nat \<times> callback) list"
  closed_ws :: "conn list"

definition ChartPanel_init :: "('v, 'f) ChartPanel" where
  \<comment> \<open>the fields as \<open>__init__\<close> sets them, before \<open>load_initial_data\<close> runs\<close>
  "ChartPanel_init =
     \<lparr>is_active = False, ws = None, data = [], scheduled = [], closed_ws = []\<rparr>"

definition load_initial_data ::
  "('v \<Rightarrow> 'f option) \<Rightarrow> 'v http \<Rightarrow> ('v, 'f) ChartPanel \<Rightarrow> exn + ('v, 'f) ChartPanel"
where
  \<comment> \<open>the effect of the worker \<open>run_fetch\<close> that \<open>load_initial_data\<close> starts\<close>
  "load_initial_data to_float response s =
     then_r (fetch_klines to_float response) (\<lambda>klines.
       if klines \<noteq> [] then
         Inr (s\<lparr>data := deque_extend klines (data s),
                scheduled := scheduled s @ [(0, DrawChart), (100, StartWebsocket)]\<rparr>)
       else Inr s)"

definition start_websocket :: "conn \<Rightarrow> ('v, 'f) ChartPanel \<Rightarrow> ('v, 'f) ChartPanel" where
  \<comment> \<open>\<open>new_ws\<close> is the \<open>WebSocketApp\<close> object that the call creates\<close>
  "start_websocket new_ws s =
     (if is_active s then s else s\<lparr>is_active := True, ws := Some new_ws\<rparr>)"

definition stop :: "('v, 'f) ChartPanel \<Rightarrow> ('v, 'f) ChartPanel" where
  "stop s =
     (let s1 = s\<lparr>is_active := False\<rparr> in
      case ws s1 of
        Some c \<Rightarrow> s1\<lparr>closed_ws := closed_ws s1 @ [c], ws := None\<rparr>
      | None \<Rightarrow> s1)"

text \<open>
  An inbound text frame after \<open>json.loads\<close>: not JSON at all, or a JSON object of which
  only the entry under \<open>'k'\<close> matters (\<open>None\<close> when the key is missing), itself a
  dictionary from field names to values; frames of another JSON shape are not covered.
\<close>

datatype 'v message = NotJson | Json "(string \<times> 'v) list option"

definition new_candle :: "('v \<Rightarrow> 'f option) \<Rightarrow> (string \<times> 'v) list \<Rightarrow> exn + ('v, 'f) candle" where
  \<comment> \<open>the tuple \<open>new_candle\<close> of \<open>on_message\<close>, evaluated left to right\<close>
  "new_candle to_float kline =
     then_r (py_key kline ''t'') (\<lambda>t.
     then_r (then_r (py_key kline ''o'') (py_float to_float)) (\<lambda>opn.
     then_r (then_r (py_key kline ''h'') (py_float to_float)) (\<lambda>high.
     then_r (then_r (py_key kline ''l'') (py_float to_float)) (\<lambda>low.
     then_r (then_r (py_key kline ''c'') (py_float to_float)) (\<lambda>close.
     then_r (then_r (py_key kline ''v'') (py_float to_float)) (\<lambda>volume.
     Inr (t, opn, high, low, close, volume)))))))"

definition decode :: "('v \<Rightarrow> 'f option) \<Rightarrow> 'v message \<Rightarrow> exn + ('v, 'f) candle" where
  \<comment> \<open>\<open>data = json.loads(message); kline = data['k']; new_candle = (...)\<close>\<close>
  "decode to_float message =
     (case message of
        NotJson \<Rightarrow> Inl JSONDecodeError
      | Json None \<Rightarrow> Inl KeyError
      | Json (Some kline) \<Rightarrow> new_candle to_float kline)"

definition store :: "('v, 'f) candle \<Rightarrow> ('v, 'f) candle list \<Rightarrow> ('v, 'f) candle list" where
  \<comment> \<open>the \<open>if\<close>/\<open>else\<close> of \<open>on_message\<close> on \<open>self.data\<close>: \<open>self.data[-1] = new_candle\<close>
      when the open times are equal, \<open>self.data.append(new_candle)\<close> otherwise\<close>
  "store c d =
     (if d \<noteq> [] \<and> open_time c = open_time (last d)
      then d[length d - 1 := c]
      else deque_append c d)"

definition on_message ::
  "('v \<Rightarrow> 'f option) \<Rightarrow> conn \<Rightarrow> 'v message \<Rightarrow> ('v, 'f) ChartPanel \<Rightarrow> exn + ('v, 'f) ChartPanel"
where
  \<comment> \<open>\<open>conn\<close> is the argument \<open>ws\<close>, the connection that delivers the frame; the body
      does not read it\<close>
  "on_message to_float conn message s =
     (if \<not> is_active s then Inr s
      else
        then_r (decode to_float message) (\<lambda>c.
          Inr (s\<lparr>data := store c (data s),
                 scheduled := scheduled s @ [(0, DrawChart)]\<rparr>)))"

fun deliver ::
  "('v \<Rightarrow> 'f option) \<Rightarrow> (conn \<times> 'v message) list \<Rightarrow> ('v, 'f) ChartPanel \<Rightarrow> ('v, 'f) ChartPanel"
where
  \<comment> \<open>frames handed to \<open>on_message\<close> one after the other, each with the connection it
      came from. A call that raises has not written to the panel yet (every statement of
      \<open>on_message\<close> that can raise comes before the first write), so the panel is as
      before and the next frame follows.\<close>
  "deliver to_float [] s = s"
| "deliver to_float ((w, message) # rest) s =
     (case on_message to_float w message s of
        Inl e \<Rightarrow> deliver to_float rest s
      | Inr s' \<Rightarrow> deliver to_float rest s')"

section \<open>Properties of windows\<close>

fun ascending :: "('v::linorder, 'f) candle list \<Rightarrow> bool" where
  \<comment> \<open>every adjacent pair has strictly increasing open times\<close>
  "ascending [] = True"
| "ascending [a] = True"
| "ascending (a # b # rest) = (open_time a < open_time b \<and> ascending (b # rest))"

definition notifications :: "('v, 'f) ChartPanel \<Rightarrow> nat" where
  \<comment> \<open>the number of redraws handed to the event loop so far\<close>
  "notifications s = length (filter (\<lambda>p. snd p = DrawChart) (scheduled s))"

definition kline_frame :: "'v \<Rightarrow> 'v \<Rightarrow> 'v \<Rightarrow> 'v \<Rightarrow> 'v \<Rightarrow> 'v \<Rightarrow> 'v message" where
  \<comment> \<open>a well-formed frame with the six fields the code reads\<close>
  "kline_frame t opn high low close volume =
     Json (Some [(''t'', t), (''o'', opn), (''h'', high), (''l'', low),
                 (''c'', close), (''v'', volume)])"

text \<open>
  Runs in which nothing arrives out of order: the panel as constructed; the panel after
  a snapshot whose candles ascend by open time; after \<open>start_websocket\<close> and \<open>stop\<close>;
  and after a frame that \<open>on_message\<close> has handled without raising, provided that a
  frame which the active panel decodes is not older than the last element of the window.
\<close>

inductive in_order :: "('v::linorder \<Rightarrow> 'f option) \<Rightarrow> ('v, 'f) ChartPanel \<Rightarrow> bool"
  for to_float :: "'v \<Rightarrow> 'f option"
where
  constructed: "in_order to_float ChartPanel_init"
| seeded:
    "fetch_klines to_float response = Inr klines \<Longrightarrow> ascending klines \<Longrightarrow>
     load_initial_data to_float response ChartPanel_init = Inr s \<Longrightarrow>
     in_order to_float s"
| started: "in_order to_float s \<Longrightarrow> in_order to_float (start_websocket new_ws s)"
| stopped: "in_order to_float s \<Longrightarrow> in_order to_float (stop s)"
| frame:
    "in_order to_float s \<Longrightarrow>
     on_message to_float w message s = Inr s' \<Longrightarrow>
     (\<forall>c. is_active s \<and> decode to_float message = Inr c \<longrightarrow>
          data s = [] \<or> open_time (last (data s)) \<le> open_time c) \<Longrightarrow>
     in_order to_float s'"

text \<open>
  A concrete panel for the examples: active on connection 1, holding three candles with
  the open times 100, 200, 300. Values and floats are integers here.
\<close>

definition three_candles :: "(int, int) candle list" where
  "three_candles = [(100, 10, 12, 9, 11, 5), (200, 11, 13, 10, 12, 6), (300, 12, 14, 11, 13, 7)]"

definition three_panel :: "(int, int) ChartPanel" where
  "three_panel =
     \<lparr>is_active = True, ws = Some 1, data = three_candles, scheduled = [], closed_ws = []\<rparr>"

text \<open>Frames for the examples: two updates of the candle 300, a late one and a new one.\<close>

definition frame_300a :: "int message" where
  "frame_300a = kline_frame 300 12 15 11 14 8"

definition frame_300b :: "int message" where
  "frame_300b = kline_frame 300 12 16 11 15 9"

definition frame_250 :: "int message" where
  "frame_250 = kline_frame 250 11 12 10 11 3"

definition frame_400 :: "int message" where
  "frame_400 = kline_frame 400 13 15 12 14 4"

definition frame_50 :: "int message" where
  "frame_50 = kline_frame 50 9 10 8 9 2"

text \<open>Payloads for the examples: three rows, and sixty rows with the open times 100 to 159.\<close>

definition three_rows :: "int list list" where
  "three_rows = [[100, 10, 12, 9, 11, 5], [200, 11, 13, 10, 12, 6], [300, 12, 14, 11, 13, 7]]"

definition sixty_rows :: "int list list" where
  "sixty_rows = map (\<lambda>n. [int n, 10, 12, 9, 11, 5]) [100..<160]"

text \<open>A panel whose window is full: active on connection 1, open times 100 to 159.\<close>

definition sixty_panel :: "(int, int) ChartPanel" where
  "sixty_panel =
     \<lparr>is_active = True, ws = Some 1,
      data = map (\<lambda>n. (int n, 10, 12, 9, 11, 5)) [100..<160],
      scheduled = [], closed_ws = []\<rparr>"




text \<open>
  The rows of a payload that the loop of \<open>fetch_klines\<close> converts without raising, and
  the candle it builds from such a row.
\<close>

definition convertible :: "('v \<Rightarrow> 'f option) \<Rightarrow> 'v list \<Rightarrow> bool" where
  "convertible to_float row =
     (6 \<le> length row \<and> list_all (\<lambda>i. to_float (row ! i) \<noteq> None) [1, 2, 3, 4, 5])"

definition row_candle :: "('v \<Rightarrow> 'f option) \<Rightarrow> 'v list \<Rightarrow> ('v, 'f) candle" where
  "row_candle to_float row =
     (row ! 0, the (to_float (row ! 1)), the (to_float (row ! 2)), the (to_float (row ! 3)),
      the (to_float (row ! 4)), the (to_float (row ! 5)))"

section \<open>Basic facts\<close>

lemma then_r_Inr [simp]: "then_r (Inr x) f = f x"
  by (simp add: then_r_def)

lemma then_r_Inl [simp]: "then_r (Inl e) f = Inl e"
  by (simp add: then_r_def)

lemma update_last: "d \<noteq> [] \<Longrightarrow> d[length d - 1 := c] = butlast d @ [c]"
  by (induction d rule: rev_induct) (simp_all add: list_update_append)

lemma store_same:
  "d \<noteq> [] \<Longrightarrow> open_time c = open_time (last d) \<Longrightarrow> store c d = butlast d @ [c]"
  unfolding store_def using update_last [of d c] by simp

lemma store_other:
  "d = [] \<or> open_time c \<noteq> open_time (last d) \<Longrightarrow> store c d = deque_append c d"
  by (auto simp: store_def)

lemma on_message_active:
  "is_active s \<Longrightarrow> decode to_float message = Inr c \<Longrightarrow>
   on_message to_float w message s =
     Inr (s\<lparr>data := store c (data s), scheduled := scheduled s @ [(0, DrawChart)]\<rparr>)"
  by (simp add: on_message_def)

lemma on_message_inactive: "\<not> is_active s \<Longrightarrow> on_message to_float w message s = Inr s"
  by (simp add: on_message_def)

lemma deque_append_room: "length d < maxlen \<Longrightarrow> deque_append x d = d @ [x]"
  by (simp add: deque_append_def)

lemma deque_append_full: "length d = maxlen \<Longrightarrow> deque_append x d = tl d @ [x]"
  by (cases d) (simp_all add: deque_append_def maxlen_def)

lemma deque_append_nonempty: "deque_append x d \<noteq> []"
  by (cases d) (auto simp: deque_append_def maxlen_def Let_def)

lemma deque_append_last: "last (deque_append x d) = x"
proof (cases "maxlen < length (d @ [x])")
  case True
  then have "d \<noteq> []" by (auto simp: maxlen_def)
  then have "tl (d @ [x]) = tl d @ [x]" by simp
  with True show ?thesis by (simp add: deque_append_def)
next
  case False
  then show ?thesis by (simp add: deque_append_def)
qed

lemma store_nonempty: "store c d \<noteq> []"
  by (auto simp: store_def deque_append_nonempty)

lemma store_last: "last (store c d) = c"
proof (cases "d \<noteq> [] \<and> open_time c = open_time (last d)")
  case True
  then have "store c d = butlast d @ [c]" by (intro store_same) simp_all
  then show ?thesis by simp
next
  case False
  then have "store c d = deque_append c d" by (intro store_other) auto
  then show ?thesis by (simp add: deque_append_last)
qed

lemma decode_kline_frame:
  "decode Some (kline_frame t opn high low close volume) = Inr (t, opn, high, low, close, volume)"
  by (simp add: decode_def kline_frame_def new_candle_def py_key_def py_float_def)

section \<open>Updates of the candle that is still forming\<close>

text \<open>
  C4. While the panel is active, a frame whose open time equals the open time of the
  last element of the window replaces that element in place: the elements before it and
  the length of the window stay as they were. Of two successive frames with the same open
  time, the second replaces what the first left at the end: the length after the second
  is the length after the first, and the last element is the second observation. When
  the window's last element already had that open time, both lengths are the length of
  the window at the start.
\<close>

theorem same_open_time_replaces_last:
  assumes active: "is_active s"
    and d1: "decode to_float m1 = Inr c1"
    and d2: "decode to_float m2 = Inr c2"
    and same: "open_time c2 = open_time c1"
  shows "\<exists>s1 s2.
           on_message to_float w1 m1 s = Inr s1 \<and>
           on_message to_float w2 m2 s1 = Inr s2 \<and>
           length (data s2) = length (data s1) \<and>
           last (data s2) = c2 \<and>
           butlast (data s2) = butlast (data s1) \<and>
           (data s \<noteq> [] \<and> open_time c1 = open_time (last (data s)) \<longrightarrow>
              data s1 = butlast (data s) @ [c1] \<and>
              length (data s1) = length (data s) \<and>
              data s2 = butlast (data s) @ [c2] \<and>
              length (data s2) = length (data s))"
proof -
  define s1 where "s1 = s\<lparr>data := store c1 (data s), scheduled := scheduled s @ [(0, DrawChart)]\<rparr>"
  define s2 where "s2 = s1\<lparr>data := store c2 (data s1), scheduled := scheduled s1 @ [(0, DrawChart)]\<rparr>"
  have step1: "on_message to_float w1 m1 s = Inr s1"
    using on_message_active [OF active d1] by (simp add: s1_def)
  have active1: "is_active s1"
    using active by (simp add: s1_def)
  have step2: "on_message to_float w2 m2 s1 = Inr s2"
    using on_message_active [OF active1 d2] by (simp add: s2_def)
  have ne1: "data s1 \<noteq> []"
    by (simp add: s1_def store_nonempty)
  have last1: "last (data s1) = c1"
    by (simp add: s1_def store_last)
  have data2: "data s2 = butlast (data s1) @ [c2]"
    using store_same [of "data s1" c2] ne1 last1 same by (simp add: s2_def)
  have len2: "length (data s2) = length (data s1)"
    using ne1 by (simp add: data2)
  have first: "data s1 = butlast (data s) @ [c1]"
    if "data s \<noteq> []" "open_time c1 = open_time (last (data s))"
    using store_same [of "data s" c1] that by (simp add: s1_def)
  have len1: "length (data s1) = length (data s)"
    if "data s \<noteq> []" "open_time c1 = open_time (last (data s))"
    using first [OF that] that(1) by simp
  show ?thesis
    using step1 step2 len2 data2 first len1 by (intro exI [of _ s1] exI [of _ s2]) auto
qed

theorem same_open_time_replaces_last_witness:
  "is_active three_panel \<and>
   decode Some frame_300a = Inr (300, 12, 15, 11, 14, 8) \<and>
   decode Some frame_300b = Inr (300, 12, 16, 11, 15, 9) \<and>
   (\<exists>s1 s2.
      on_message Some 1 frame_300a three_panel = Inr s1 \<and>
      on_message Some 1 frame_300b s1 = Inr s2 \<and>
      length (data s1) = 3 \<and> length (data s2) = 3 \<and>
      last (data s2) = (300, 12, 16, 11, 15, 9))"
proof -
  have a: "is_active three_panel"
    by (simp add: three_panel_def)
  have d1: "decode Some frame_300a = Inr (300, 12, 15, 11, 14, 8)"
    unfolding frame_300a_def by (rule decode_kline_frame)
  have d2: "decode Some frame_300b = Inr (300, 12, 16, 11, 15, 9)"
    unfolding frame_300b_def by (rule decode_kline_frame)
  have same: "open_time (300::int, 12::int, 16::int, 11::int, 15::int, 9::int)
                = open_time (300::int, 12::int, 15::int, 11::int, 14::int, 8::int)"
    by (simp add: open_time_def)
  have at_end: "data three_panel \<noteq> [] \<and>
      open_time (300::int, 12::int, 15::int, 11::int, 14::int, 8::int)
        = open_time (last (data three_panel))"
    by (simp add: three_panel_def three_candles_def open_time_def)
  have len: "length (data three_panel) = 3"
    by (simp add: three_panel_def three_candles_def)
  from same_open_time_replaces_last [OF a d1 d2 same, of 1 1] at_end len
  have "\<exists>s1 s2.
      on_message Some 1 frame_300a three_panel = Inr s1 \<and>
      on_message Some 1 frame_300b s1 = Inr s2 \<and>
      length (data s1) = 3 \<and> length (data s2) = 3 \<and>
      last (data s2) = (300, 12, 16, 11, 15, 9)"
    by auto
  with a d1 d2 show ?thesis by blast
qed

lemma middle_split: "2 \<le> length w \<Longrightarrow> w = hd w # butlast (tl w) @ [last w]"
  by (cases w) (auto simp: Suc_le_eq)

lemma deque_append_over: "maxlen \<le> length d \<Longrightarrow> deque_append x d = tl d @ [x]"
  by (cases d) (simp_all add: deque_append_def maxlen_def)

lemma notifications_snoc:
  "notifications (s\<lparr>data := d, scheduled := scheduled s @ [(0, DrawChart)]\<rparr>) = notifications s + 1"
  by (simp add: notifications_def)

section \<open>Frames that arrive late\<close>

text \<open>
  C1, as stated, fails. The window holds the open times 100, 200, 300 and the panel is
  active; a frame with the open time 250 arrives. The code compares the open times only
  for equality, so the frame takes the \<open>else\<close> branch and is appended: the window has
  four elements afterwards.
\<close>

theorem late_frame_changes_window:
  "open_time (250::int, 11::int, 12::int, 10::int, 11::int, 3::int)
     < open_time (last (data three_panel)) \<and>
   on_message Some 1 frame_250 three_panel =
     Inr (three_panel\<lparr>data := three_candles @ [(250, 11, 12, 10, 11, 3)],
                       scheduled := [(0, DrawChart)]\<rparr>) \<and>
   length (three_candles @ [(250::int, 11::int, 12::int, 10::int, 11::int, 3::int)])
     \<noteq> length (data three_panel)"
proof -
  have d: "decode Some frame_250 = Inr (250, 11, 12, 10, 11, 3)"
    unfolding frame_250_def by (rule decode_kline_frame)
  have a: "is_active three_panel"
    by (simp add: three_panel_def)
  have st: "store (250, 11, 12, 10, 11, 3) three_candles = three_candles @ [(250, 11, 12, 10, 11, 3)]"
    by (simp add: store_def three_candles_def open_time_def deque_append_def maxlen_def)
  have "on_message Some 1 frame_250 three_panel =
     Inr (three_panel\<lparr>data := three_candles @ [(250, 11, 12, 10, 11, 3)],
                       scheduled := [(0, DrawChart)]\<rparr>)"
    using on_message_active [OF a d, of 1] st by (simp add: three_panel_def)
  moreover have "open_time (250::int, 11::int, 12::int, 10::int, 11::int, 3::int)
     < open_time (last (data three_panel))"
    by (simp add: three_panel_def three_candles_def open_time_def)
  moreover have "length (three_candles @ [(250::int, 11::int, 12::int, 10::int, 11::int, 3::int)])
     \<noteq> length (data three_panel)"
    by (simp add: three_panel_def)
  ultimately show ?thesis by blast
qed

text \<open>
  C1, amended. While the panel is active, a frame whose open time is strictly less than
  the open time of the last element of a non-empty window is not discarded: it is
  appended at the end like every frame with a different open time, after all elements
  of the window when there is room, and in exchange for the front element when the window
  is full. The call returns normally.
\<close>

theorem late_frame_is_appended:
  fixes c :: "('v::linorder, 'f) candle"
  assumes "is_active s"
    and "decode to_float message = Inr c"
    and "data s \<noteq> []"
    and "open_time c < open_time (last (data s))"
  shows "on_message to_float w message s =
           Inr (s\<lparr>data := (if length (data s) < maxlen then data s @ [c]
                             else tl (data s) @ [c]),
                  scheduled := scheduled s @ [(0, DrawChart)]\<rparr>)"
proof -
  have "open_time c \<noteq> open_time (last (data s))"
    using assms(4) by simp
  then have "store c (data s) = deque_append c (data s)"
    by (intro store_other) simp
  moreover have "deque_append c (data s) =
      (if length (data s) < maxlen then data s @ [c] else tl (data s) @ [c])"
    by (simp add: deque_append_room deque_append_over)
  ultimately show ?thesis
    using on_message_active [OF assms(1,2), of w] by simp
qed

theorem late_frame_is_appended_witness:
  "is_active three_panel \<and>
   decode Some frame_250 = Inr (250, 11, 12, 10, 11, 3) \<and>
   data three_panel \<noteq> [] \<and>
   open_time (250::int, 11::int, 12::int, 10::int, 11::int, 3::int)
     < open_time (last (data three_panel)) \<and>
   on_message Some 1 frame_250 three_panel =
     Inr (three_panel\<lparr>data := [(100, 10, 12, 9, 11, 5), (200, 11, 13, 10, 12, 6),
                                 (300, 12, 14, 11, 13, 7), (250, 11, 12, 10, 11, 3)],
                       scheduled := [(0, DrawChart)]\<rparr>)"
proof -
  have a: "is_active three_panel"
    by (simp add: three_panel_def)
  have d: "decode Some frame_250 = Inr (250, 11, 12, 10, 11, 3)"
    unfolding frame_250_def by (rule decode_kline_frame)
  have n: "data three_panel \<noteq> []"
    by (simp add: three_panel_def three_candles_def)
  have l: "open_time (250::int, 11::int, 12::int, 10::int, 11::int, 3::int)
     < open_time (last (data three_panel))"
    by (simp add: three_panel_def three_candles_def open_time_def)
  show ?thesis
    using late_frame_is_appended [OF a d n l, of 1] a d n l
    by (simp add: three_panel_def three_candles_def maxlen_def)
qed

section \<open>Redraw notifications\<close>

text \<open>
  C7, as stated, fails in its last part. The frame with the open time 250 arrives at the
  active panel holding 100, 200, 300: it is older than the last element, and the call
  still hands one redraw to the event loop.
\<close>

theorem late_frame_notifies:
  "open_time (250::int, 11::int, 12::int, 10::int, 11::int, 3::int)
     < open_time (last (data three_panel)) \<and>
   notifications three_panel = 0 \<and>
   then_r (on_message Some 1 frame_250 three_panel) (\<lambda>s'. Inr (notifications s')) = Inr 1"
proof -
  have d: "decode Some frame_250 = Inr (250, 11, 12, 10, 11, 3)"
    unfolding frame_250_def by (rule decode_kline_frame)
  have a: "is_active three_panel"
    by (simp add: three_panel_def)
  have "then_r (on_message Some 1 frame_250 three_panel) (\<lambda>s'. Inr (notifications s')) = Inr 1"
    using on_message_active [OF a d, of 1]
    by (simp add: notifications_def three_panel_def)
  moreover have "open_time (250::int, 11::int, 12::int, 10::int, 11::int, 3::int)
     < open_time (last (data three_panel))"
    by (simp add: three_panel_def three_candles_def open_time_def)
  moreover have "notifications three_panel = 0"
    by (simp add: notifications_def three_panel_def)
  ultimately show ?thesis by blast
qed

text \<open>
  C7, amended. Every frame that \<open>on_message\<close> decodes while the panel is active adds
  exactly one redraw to the callbacks handed to the event loop, whichever branch stores
  it: the append to an empty window, the replacement of the last element, the append of
  a later candle, and also the append of a candle older than the last element. A frame
  that arrives while the panel is not active adds none.
\<close>

theorem one_notification_per_frame:
  "(is_active s \<and> decode to_float message = Inr c \<longrightarrow>
      (\<exists>s'. on_message to_float w message s = Inr s' \<and>
            data s' = store c (data s) \<and>
            scheduled s' = scheduled s @ [(0, DrawChart)] \<and>
            notifications s' = notifications s + 1)) \<and>
   (\<not> is_active s \<longrightarrow>
      (\<exists>s'. on_message to_float w message s = Inr s' \<and>
            notifications s' = notifications s))"
proof (intro conjI impI)
  assume h: "is_active s \<and> decode to_float message = Inr c"
  then have "on_message to_float w message s =
      Inr (s\<lparr>data := store c (data s), scheduled := scheduled s @ [(0, DrawChart)]\<rparr>)"
    by (intro on_message_active) simp_all
  then show "\<exists>s'. on_message to_float w message s = Inr s' \<and>
            data s' = store c (data s) \<and>
            scheduled s' = scheduled s @ [(0, DrawChart)] \<and>
            notifications s' = notifications s + 1"
    by (simp add: notifications_snoc)
next
  assume "\<not> is_active s"
  then show "\<exists>s'. on_message to_float w message s = Inr s' \<and> notifications s' = notifications s"
    by (simp add: on_message_inactive)
qed

theorem one_notification_per_frame_witness:
  "is_active three_panel \<and>
   decode Some frame_400 = Inr (400, 13, 15, 12, 14, 4) \<and>
   (\<exists>s'. on_message Some 1 frame_400 three_panel = Inr s' \<and> notifications s' = 1) \<and>
   \<not> is_active (stop three_panel) \<and>
   (\<exists>s'. on_message Some 1 frame_400 (stop three_panel) = Inr s' \<and> notifications s' = 0)"
proof -
  have a: "is_active three_panel"
    by (simp add: three_panel_def)
  have d: "decode Some frame_400 = Inr (400, 13, 15, 12, 14, 4)"
    unfolding frame_400_def by (rule decode_kline_frame)
  have n0: "notifications three_panel = 0"
    by (simp add: notifications_def three_panel_def)
  have i: "\<not> is_active (stop three_panel)"
    by (simp add: stop_def three_panel_def)
  have n1: "notifications (stop three_panel) = 0"
    by (simp add: notifications_def stop_def three_panel_def)
  have "\<exists>s'. on_message Some 1 frame_400 three_panel = Inr s' \<and> notifications s' = 1"
    using one_notification_per_frame [of three_panel Some frame_400 "(400, 13, 15, 12, 14, 4)" 1]
      a d n0 by auto
  moreover
  have "\<exists>s'. on_message Some 1 frame_400 (stop three_panel) = Inr s' \<and> notifications s' = 0"
    using one_notification_per_frame [of "stop three_panel" Some frame_400 "(400, 13, 15, 12, 14, 4)" 1]
      i n1 by auto
  ultimately show ?thesis using a d i by blast
qed

section \<open>What one frame leaves untouched\<close>

text \<open>
  C10. Take a window of at least three elements and one frame that the active panel
  decodes. The elements strictly between the first and the last, \<open>butlast (tl d)\<close>, are
  found again in the new window, in the same order and next to each other: a frame with
  the open time of the last element changes the last element only; any other frame is
  added at the back, and the front element is removed when the window was full, and only
  then.
\<close>

theorem inner_elements_kept:
  assumes "is_active s"
    and "decode to_float message = Inr c"
    and "3 \<le> length (data s)"
  shows "\<exists>s'. on_message to_float w message s = Inr s' \<and>
           data s' =
             (if open_time c = open_time (last (data s))
              then [hd (data s)] @ butlast (tl (data s)) @ [c]
              else if length (data s) < maxlen
              then [hd (data s)] @ butlast (tl (data s)) @ [last (data s), c]
              else butlast (tl (data s)) @ [last (data s), c])"
proof -
  let ?d = "data s"
  have ne: "?d \<noteq> []"
    using assms(3) by auto
  have split: "?d = hd ?d # butlast (tl ?d) @ [last ?d]"
    using assms(3) by (intro middle_split) simp
  have bl: "butlast ?d = hd ?d # butlast (tl ?d)"
    using arg_cong [OF split, of butlast] by (simp add: butlast_append)
  have tl: "tl ?d = butlast (tl ?d) @ [last ?d]"
    using arg_cong [OF split, of tl] by simp
  have step: "on_message to_float w message s =
      Inr (s\<lparr>data := store c ?d, scheduled := scheduled s @ [(0, DrawChart)]\<rparr>)"
    using assms(1,2) by (rule on_message_active)
  have "store c ?d =
      (if open_time c = open_time (last ?d)
       then [hd ?d] @ butlast (tl ?d) @ [c]
       else if length ?d < maxlen
       then [hd ?d] @ butlast (tl ?d) @ [last ?d, c]
       else butlast (tl ?d) @ [last ?d, c])"
  proof (cases "open_time c = open_time (last ?d)")
    case True
    then have "store c ?d = butlast ?d @ [c]"
      using ne by (intro store_same) simp_all
    then show ?thesis using True bl by simp
  next
    case False
    then have app: "store c ?d = deque_append c ?d"
      by (intro store_other) simp
    show ?thesis
    proof (cases "length ?d < maxlen")
      case True
      then have "store c ?d = ?d @ [c]"
        using app by (simp add: deque_append_room)
      also have "\<dots> = (hd ?d # butlast (tl ?d) @ [last ?d]) @ [c]"
        using split by simp
      finally show ?thesis using \<open>open_time c \<noteq> open_time (last ?d)\<close> True by simp
    next
      case False
      then have "store c ?d = tl ?d @ [c]"
        using app by (simp add: deque_append_over)
      also have "\<dots> = (butlast (tl ?d) @ [last ?d]) @ [c]"
        using tl by simp
      finally show ?thesis using \<open>open_time c \<noteq> open_time (last ?d)\<close> False by simp
    qed
  qed
  then show ?thesis using step by simp
qed

theorem inner_elements_kept_witness:
  "is_active three_panel \<and>
   decode Some frame_400 = Inr (400, 13, 15, 12, 14, 4) \<and>
   3 \<le> length (data three_panel) \<and>
   butlast (tl (data three_panel)) = [(200, 11, 13, 10, 12, 6)] \<and>
   (\<exists>s'. on_message Some 1 frame_400 three_panel = Inr s' \<and>
      data s' = [(100, 10, 12, 9, 11, 5)] @ [(200, 11, 13, 10, 12, 6)] @
                [(300, 12, 14, 11, 13, 7), (400, 13, 15, 12, 14, 4)])"
proof -
  have a: "is_active three_panel"
    by (simp add: three_panel_def)
  have d: "decode Some frame_400 = Inr (400, 13, 15, 12, 14, 4)"
    unfolding frame_400_def by (rule decode_kline_frame)
  have l: "3 \<le> length (data three_panel)"
    by (simp add: three_panel_def three_candles_def)
  have m: "butlast (tl (data three_panel)) = [(200, 11, 13, 10, 12, 6)]"
    by (simp add: three_panel_def three_candles_def)
  have "\<exists>s'. on_message Some 1 frame_400 three_panel = Inr s' \<and>
      data s' = [(100, 10, 12, 9, 11, 5)] @ [(200, 11, 13, 10, 12, 6)] @
                [(300, 12, 14, 11, 13, 7), (400, 13, 15, 12, 14, 4)]"
    using inner_elements_kept [OF a d l, of 1]
    by (simp add: three_panel_def three_candles_def open_time_def maxlen_def)
  then show ?thesis using a d l m by blast
qed

lemma stop_inactive: "\<not> is_active (stop s)"
  by (simp add: stop_def Let_def split: option.split)

lemma stop_data: "data (stop s) = data s"
  by (simp add: stop_def Let_def split: option.split)



section \<open>Stopping\<close>




section \<open>Frames of an earlier connection\<close>

text \<open>
  C5, as stated, fails. The panel is active on connection 1 with the window 100, 200,
  300. It is stopped, which closes connection 1, and started again on connection 2. A
  frame with the open time 400 that connection 1 still delivers is stored: the window
  has four elements afterwards.
\<close>

theorem old_connection_frame_is_stored:
  "ws three_panel = Some 1 \<and>
   closed_ws (stop three_panel) = [1] \<and>
   ws (start_websocket 2 (stop three_panel)) = Some 2 \<and>
   then_r (on_message Some 1 frame_400 (start_websocket 2 (stop three_panel)))
     (\<lambda>s'. Inr (data s')) = Inr (three_candles @ [(400, 13, 15, 12, 14, 4)])"
proof -
  have d: "decode Some frame_400 = Inr (400, 13, 15, 12, 14, 4)"
    unfolding frame_400_def by (rule decode_kline_frame)
  have a: "is_active (start_websocket 2 (stop three_panel))"
    by (simp add: start_websocket_def stop_inactive)
  have st: "store (400, 13, 15, 12, 14, 4) three_candles = three_candles @ [(400, 13, 15, 12, 14, 4)]"
    by (simp add: store_def three_candles_def open_time_def deque_append_def maxlen_def)
  have dt: "data (start_websocket 2 (stop three_panel)) = three_candles"
    by (simp add: start_websocket_def stop_def Let_def three_panel_def)
  have "then_r (on_message Some 1 frame_400 (start_websocket 2 (stop three_panel)))
     (\<lambda>s'. Inr (data s')) = Inr (three_candles @ [(400, 13, 15, 12, 14, 4)])"
    using on_message_active [OF a d, of 1] st dt by simp
  moreover have "ws three_panel = Some 1"
    by (simp add: three_panel_def)
  moreover have "closed_ws (stop three_panel) = [1]"
    by (simp add: stop_def Let_def three_panel_def)
  moreover have "ws (start_websocket 2 (stop three_panel)) = Some 2"
    by (simp add: start_websocket_def stop_def Let_def three_panel_def)
  ultimately show ?thesis by blast
qed

text \<open>
  C5, amended. The panel keeps no generation and \<open>on_message\<close> does not look at the
  connection that delivers a frame; the only gate is the flag \<open>is_active\<close>. So a frame
  of the connection closed by \<open>stop()\<close> is rejected as long as the panel has not been
  started again, and once it has been started again the frame is treated exactly as a
  frame of the new connection: when it decodes it is stored in the window.
\<close>

theorem gate_is_the_flag_only:
  "on_message to_float old message (stop s) = Inr (stop s) \<and>
   is_active (start_websocket new (stop s)) \<and>
   on_message to_float old message (start_websocket new (stop s))
     = on_message to_float new message (start_websocket new (stop s)) \<and>
   (decode to_float message = Inr c \<longrightarrow>
      (\<exists>s'. on_message to_float old message (start_websocket new (stop s)) = Inr s' \<and>
            data s' = store c (data s)))"
proof -
  let ?r = "start_websocket new (stop s)"
  have a: "is_active ?r"
    by (simp add: start_websocket_def stop_inactive)
  have dt: "data ?r = data s"
    by (simp add: start_websocket_def stop_inactive stop_data)
  have "on_message to_float old message (stop s) = Inr (stop s)"
    using stop_inactive by (rule on_message_inactive)
  moreover have "on_message to_float old message ?r = on_message to_float new message ?r"
    by (simp add: on_message_def)
  moreover have "\<exists>s'. on_message to_float old message ?r = Inr s' \<and> data s' = store c (data s)"
    if "decode to_float message = Inr c"
    using on_message_active [OF a that, of old] dt by simp
  ultimately show ?thesis using a by blast
qed

theorem gate_is_the_flag_only_witness:
  "decode Some frame_400 = Inr (400, 13, 15, 12, 14, 4) \<and>
   on_message Some 1 frame_400 (stop three_panel) = Inr (stop three_panel) \<and>
   on_message Some 1 frame_400 (start_websocket 2 (stop three_panel))
     = on_message Some 2 frame_400 (start_websocket 2 (stop three_panel)) \<and>
   (\<exists>s'. on_message Some 1 frame_400 (start_websocket 2 (stop three_panel)) = Inr s' \<and>
      data s' = [(100, 10, 12, 9, 11, 5), (200, 11, 13, 10, 12, 6),
                 (300, 12, 14, 11, 13, 7), (400, 13, 15, 12, 14, 4)])"
proof -
  have d: "decode Some frame_400 = Inr (400, 13, 15, 12, 14, 4)"
    unfolding frame_400_def by (rule decode_kline_frame)
  have st: "store (400, 13, 15, 12, 14, 4) (data three_panel) =
      [(100, 10, 12, 9, 11, 5), (200, 11, 13, 10, 12, 6),
       (300, 12, 14, 11, 13, 7), (400, 13, 15, 12, 14, 4)]"
    by (simp add: store_def three_panel_def three_candles_def open_time_def
        deque_append_def maxlen_def)
  have g: "on_message Some 1 frame_400 (stop three_panel) = Inr (stop three_panel) \<and>
      on_message Some 1 frame_400 (start_websocket 2 (stop three_panel))
        = on_message Some 2 frame_400 (start_websocket 2 (stop three_panel)) \<and>
      (\<exists>s'. on_message Some 1 frame_400 (start_websocket 2 (stop three_panel)) = Inr s' \<and>
         data s' = store (400, 13, 15, 12, 14, 4) (data three_panel))"
    using gate_is_the_flag_only [of Some 1 frame_400 three_panel 2 "(400, 13, 15, 12, 14, 4)"] d
    by blast
  show ?thesis
    using g d unfolding st by blast
qed

section \<open>An empty snapshot\<close>

text \<open>
  C9. When \<open>fetch_klines\<close> returns no candle, the worker of \<open>load_initial_data\<close> ends
  normally and leaves the panel exactly as it was: the window stays empty, the flag
  stays off, and nothing is handed to the event loop, in particular not
  \<open>start_websocket\<close>, which has no other caller. Only a snapshot with at least one
  candle fills the window and schedules the start of the live feed.
\<close>

theorem empty_snapshot_leaves_panel_idle:
  "(fetch_klines to_float response = Inr [] \<longrightarrow>
      load_initial_data to_float response s = Inr s \<and>
      load_initial_data to_float response ChartPanel_init = Inr ChartPanel_init \<and>
      data (ChartPanel_init :: ('v, 'f) ChartPanel) = [] \<and>
      \<not> is_active (ChartPanel_init :: ('v, 'f) ChartPanel) \<and>
      scheduled (ChartPanel_init :: ('v, 'f) ChartPanel) = []) \<and>
   (fetch_klines to_float response = Inr klines \<and> klines \<noteq> [] \<longrightarrow>
      (\<exists>s'. load_initial_data to_float response s = Inr s' \<and>
            data s' = deque_extend klines (data s) \<and>
            is_active s' = is_active s \<and>
            scheduled s' = scheduled s @ [(0, DrawChart), (100, StartWebsocket)]))"
  by (simp add: load_initial_data_def ChartPanel_init_def)

theorem empty_snapshot_leaves_panel_idle_witness:
  "fetch_klines Some (Response 200 (Rows [])) = Inr ([] :: (int, int) candle list) \<and>
   load_initial_data Some (Response 200 (Rows [])) (ChartPanel_init :: (int, int) ChartPanel)
     = Inr ChartPanel_init \<and>
   fetch_klines Some (Response 200 (Rows [[100, 10, 12, 9, 11, 5]]))
     = Inr [(100::int, 10::int, 12, 9, 11, 5)] \<and>
   (\<exists>s'. load_initial_data Some (Response 200 (Rows [[100, 10, 12, 9, 11, 5]]))
           (ChartPanel_init :: (int, int) ChartPanel) = Inr s' \<and>
      data s' = [(100, 10, 12, 9, 11, 5)] \<and>
      scheduled s' = [(0, DrawChart), (100, StartWebsocket)])"
proof -
  have e: "fetch_klines Some (Response 200 (Rows [])) = Inr ([] :: (int, int) candle list)"
    by (simp add: fetch_klines_def fetch_try_def raise_for_status_def)
  have f: "fetch_klines Some (Response 200 (Rows [[100, 10, 12, 9, 11, 5]]))
     = Inr [(100::int, 10::int, 12, 9, 11, 5)]"
    by (simp add: fetch_klines_def fetch_try_def raise_for_status_def format_candle_def
        py_index_def py_float_def)
  have x: "deque_extend [(100::int, 10::int, 12::int, 9::int, 11::int, 5::int)] [] = [(100, 10, 12, 9, 11, 5)]"
    by (simp add: deque_extend_def deque_append_def maxlen_def)
  have "load_initial_data Some (Response 200 (Rows [])) (ChartPanel_init :: (int, int) ChartPanel)
     = Inr ChartPanel_init"
    using empty_snapshot_leaves_panel_idle
      [where to_float = Some and response = "Response 200 (Rows [])"
         and s = "ChartPanel_init :: (int, int) ChartPanel" and klines = "[]"] e
    by blast
  moreover
  have "\<exists>s'. load_initial_data Some (Response 200 (Rows [[100, 10, 12, 9, 11, 5]]))
           (ChartPanel_init :: (int, int) ChartPanel) = Inr s' \<and>
      data s' = [(100, 10, 12, 9, 11, 5)] \<and>
      scheduled s' = [(0, DrawChart), (100, StartWebsocket)]"
    using empty_snapshot_leaves_panel_idle
      [where to_float = Some and response = "Response 200 (Rows [[100, 10, 12, 9, 11, 5]])"
         and s = "ChartPanel_init :: (int, int) ChartPanel"
         and klines = "[(100, 10, 12, 9, 11, 5)]"] f x
    by (auto simp: ChartPanel_init_def)
  ultimately show ?thesis using e f by blast
qed

lemma then_r_eq_Inr: "then_r r f = Inr y \<longleftrightarrow> (\<exists>x. r = Inr x \<and> f x = Inr y)"
  by (cases r) simp_all

lemma py_index_eq_Inr: "py_index xs i = Inr x \<longleftrightarrow> i < length xs \<and> x = xs ! i"
  by (auto simp: py_index_def)

lemma format_candle_Inr:
  assumes "format_candle to_float row = Inr c"
  shows "6 \<le> length row \<and> open_time c = row ! 0"
proof -
  from assms obtain t opn high low close volume x5 where
    "py_index row 0 = Inr t" "py_index row 5 = Inr x5" "c = (t, opn, high, low, close, volume)"
    unfolding format_candle_def then_r_eq_Inr by blast
  then show ?thesis
    by (simp add: py_index_eq_Inr open_time_def)
qed

lemma format_loop_Inr:
  "format_loop to_float rows acc = Inr xs \<Longrightarrow>
   \<exists>ys. xs = acc @ ys \<and> map open_time ys = map (\<lambda>row. row ! 0) rows"
proof (induction rows arbitrary: acc)
  case Nil
  then show ?case by simp
next
  case (Cons row rows)
  from Cons.prems obtain c where
    c: "format_candle to_float row = Inr c"
    and rest: "format_loop to_float rows (acc @ [c]) = Inr xs"
    by (auto simp: then_r_eq_Inr)
  from Cons.IH [OF rest] obtain ys where
    ys: "xs = (acc @ [c]) @ ys" "map open_time ys = map (\<lambda>row. row ! 0) rows"
    by blast
  have "open_time c = row ! 0"
    using format_candle_Inr [OF c] by simp
  then have "xs = acc @ (c # ys) \<and> map open_time (c # ys) = map (\<lambda>row. row ! 0) (row # rows)"
    using ys by simp
  then show ?case by blast
qed

lemma format_loop_fails:
  "\<exists>row \<in> set rows. isl (format_candle to_float row) \<Longrightarrow> isl (format_loop to_float rows acc)"
proof (induction rows arbitrary: acc)
  case Nil
  then show ?case by simp
next
  case (Cons row rows)
  show ?case
  proof (cases "format_candle to_float row")
    case (Inl e)
    then show ?thesis by simp
  next
    case (Inr c)
    then have "\<exists>row \<in> set rows. isl (format_candle to_float row)"
      using Cons.prems by auto
    then show ?thesis
      using Inr Cons.IH by simp
  qed
qed

lemma fetch_klines_returns: "\<exists>xs. fetch_klines to_float response = Inr xs"
  by (simp add: fetch_klines_def split: sum.split)

lemma fetch_klines_of_failure:
  "isl (fetch_try to_float response) \<Longrightarrow> fetch_klines to_float response = Inr []"
  by (cases "fetch_try to_float response") (simp_all add: fetch_klines_def)

lemma format_candle_convertible:
  "convertible to_float row \<Longrightarrow> format_candle to_float row = Inr (row_candle to_float row)"
  by (auto simp: convertible_def format_candle_def row_candle_def py_index_def py_float_def)

lemma format_candle_not_convertible:
  "\<not> convertible to_float row \<Longrightarrow> isl (format_candle to_float row)"
  by (auto simp: convertible_def format_candle_def py_index_def py_float_def then_r_def
      split: sum.splits option.splits)

lemma format_loop_all_convertible:
  "list_all (convertible to_float) rows \<Longrightarrow>
   format_loop to_float rows acc = Inr (acc @ map (row_candle to_float) rows)"
  by (induction rows arbitrary: acc) (simp_all add: format_candle_convertible)

lemma open_time_row_candle: "open_time (row_candle to_float row) = row ! 0"
  by (simp add: open_time_def row_candle_def)

section \<open>Outcomes of the historical fetch\<close>

text \<open>
  C8, as stated, fails. When the request gets no response, when the status is 500 and
  when the body is not JSON, the \<open>try\<close> block raises, the \<open>except\<close> clause catches the
  exception, and \<open>fetch_klines\<close> returns the empty list: the call does not fail. When the
  payload lists the candle 200 before the candle 100, the result has them in that order.
\<close>

theorem fetch_failures_return_empty_list:
  "fetch_try Some (NoResponse :: int http) = (Inl RequestException :: exn + (int, int) candle list) \<and>
   fetch_klines Some (NoResponse :: int http) = (Inr [] :: exn + (int, int) candle list) \<and>
   fetch_try Some (Response 500 (Rows [] :: int payload))
     = (Inl HTTPError :: exn + (int, int) candle list) \<and>
   fetch_klines Some (Response 500 (Rows [] :: int payload))
     = (Inr [] :: exn + (int, int) candle list) \<and>
   fetch_try Some (Response 200 (NotJSON :: int payload))
     = (Inl JSONDecodeError :: exn + (int, int) candle list) \<and>
   fetch_klines Some (Response 200 (NotJSON :: int payload))
     = (Inr [] :: exn + (int, int) candle list) \<and>
   fetch_klines Some (Response 200 (Rows [[200, 11, 13, 10, 12, 6], [100, 10, 12, 9, 11, 5]]))
     = Inr [(200::int, 11::int, 13, 10, 12, 6), (100, 10, 12, 9, 11, 5)] \<and>
   \<not> ascending [(200::int, 11::int, 13::int, 10::int, 12::int, 6::int), (100, 10, 12, 9, 11, 5)]"
  by (simp add: fetch_klines_def fetch_try_def raise_for_status_def format_candle_def
      py_index_def py_float_def open_time_def)

text \<open>
  C8, amended. \<open>fetch_klines\<close> never fails: every call returns a list. The list is empty
  when the request gets no response (network error or timeout), when the status is a 4xx
  or 5xx code, when the body is not JSON, and when a row of the payload cannot be
  converted (fewer than six fields, or a field that \<open>float()\<close> rejects). In every other
  case, that is for a response with another status whose rows can all be converted, the
  list has one candle for each row of the payload, in the order of the payload, with the
  row's first field as its open time: it ascends by open time when the payload does.
\<close>

theorem fetch_klines_outcomes:
  "(\<exists>ys. fetch_klines to_float response = Inr ys) \<and>
   fetch_klines to_float NoResponse = Inr [] \<and>
   (400 \<le> status \<and> status < 600 \<longrightarrow> fetch_klines to_float (Response status body) = Inr []) \<and>
   fetch_klines to_float (Response status NotJSON) = Inr [] \<and>
   ((\<exists>row \<in> set rows. isl (format_candle to_float row)) \<longrightarrow>
      fetch_klines to_float (Response status (Rows rows)) = Inr []) \<and>
   (fetch_klines to_float response = Inr xs \<and> xs \<noteq> [] \<longrightarrow>
      (\<exists>st payload_rows.
          response = Response st (Rows payload_rows) \<and>
          \<not> (400 \<le> st \<and> st < 600) \<and>
          map open_time xs = map (\<lambda>row. row ! 0) payload_rows)) \<and>
   (\<not> list_all (convertible to_float) rows \<longrightarrow>
      fetch_klines to_float (Response status (Rows rows)) = Inr []) \<and>
   (\<not> (400 \<le> status \<and> status < 600) \<and> list_all (convertible to_float) rows \<longrightarrow>
      fetch_klines to_float (Response status (Rows rows)) = Inr (map (row_candle to_float) rows) \<and>
      length (map (row_candle to_float) rows) = length rows \<and>
      map open_time (map (row_candle to_float) rows) = map (\<lambda>row. row ! 0) rows)"
proof (intro conjI impI)
  show "\<exists>ys. fetch_klines to_float response = Inr ys"
    by (rule fetch_klines_returns)
  show "fetch_klines to_float NoResponse = Inr []"
    by (simp add: fetch_klines_def fetch_try_def)
  show "fetch_klines to_float (Response status NotJSON) = Inr []"
    by (simp add: fetch_klines_def fetch_try_def then_r_def split: sum.split)
next
  assume "400 \<le> status \<and> status < 600"
  then show "fetch_klines to_float (Response status body) = Inr []"
    by (simp add: fetch_klines_def fetch_try_def raise_for_status_def)
next
  assume "\<exists>row \<in> set rows. isl (format_candle to_float row)"
  then have "isl (format_loop to_float rows [])"
    by (rule format_loop_fails)
  then have "isl (fetch_try to_float (Response status (Rows rows)))"
    by (simp add: fetch_try_def then_r_def split: sum.split)
  then show "fetch_klines to_float (Response status (Rows rows)) = Inr []"
    by (rule fetch_klines_of_failure)
next
  assume h: "fetch_klines to_float response = Inr xs \<and> xs \<noteq> []"
  then have t: "fetch_try to_float response = Inr xs"
    by (cases "fetch_try to_float response") (auto simp: fetch_klines_def)
  then obtain st body' where r: "response = Response st body'"
    by (cases response) (simp_all add: fetch_try_def)
  have ok: "\<not> (400 \<le> st \<and> st < 600)"
    using t r by (auto simp: fetch_try_def raise_for_status_def)
  then obtain payload_rows where b: "body' = Rows payload_rows"
    using t r by (cases body') (auto simp: fetch_try_def raise_for_status_def then_r_eq_Inr split: if_splits)
  have "format_loop to_float payload_rows [] = Inr xs"
    using t r b ok by (simp add: fetch_try_def raise_for_status_def)
  from format_loop_Inr [OF this]
  have "map open_time xs = map (\<lambda>row. row ! 0) payload_rows"
    by simp
  then show "\<exists>st payload_rows.
          response = Response st (Rows payload_rows) \<and>
          \<not> (400 \<le> st \<and> st < 600) \<and>
          map open_time xs = map (\<lambda>row. row ! 0) payload_rows"
    using r b ok by blast
next
  assume "\<not> list_all (convertible to_float) rows"
  then obtain row where "row \<in> set rows" "\<not> convertible to_float row"
    by (auto simp: list_all_iff)
  then have "\<exists>row \<in> set rows. isl (format_candle to_float row)"
    using format_candle_not_convertible by blast
  then have "isl (format_loop to_float rows [])"
    by (rule format_loop_fails)
  then have "isl (fetch_try to_float (Response status (Rows rows)))"
    by (simp add: fetch_try_def then_r_def split: sum.split)
  then show "fetch_klines to_float (Response status (Rows rows)) = Inr []"
    by (rule fetch_klines_of_failure)
next
  assume g: "\<not> (400 \<le> status \<and> status < 600) \<and> list_all (convertible to_float) rows"
  then have "format_loop to_float rows [] = Inr (map (row_candle to_float) rows)"
    using format_loop_all_convertible [of to_float rows "[]"] by simp
  moreover have "raise_for_status status = Inr ()"
    using g by (auto simp: raise_for_status_def)
  ultimately
  show "fetch_klines to_float (Response status (Rows rows)) = Inr (map (row_candle to_float) rows)"
    by (simp add: fetch_klines_def fetch_try_def)
  show "length (map (row_candle to_float) rows) = length rows"
    by simp
  show "map open_time (map (row_candle to_float) rows) = map (\<lambda>row. row ! 0) rows"
    by (simp add: open_time_row_candle)
qed

theorem fetch_klines_outcomes_witness:
  "(400::nat) \<le> 500 \<and> (500::nat) < 600 \<and>
   fetch_klines Some (Response 500 (Rows [[100, 10, 12, 9, 11, 5]]))
     = (Inr [] :: exn + (int, int) candle list) \<and>
   (\<exists>row \<in> set [[100, 10, 12, 9, 11, 5], [200::int, 11]].
       isl (format_candle Some row :: exn + (int, int) candle)) \<and>
   \<not> list_all (convertible (Some :: int \<Rightarrow> int option)) [[100, 10, 12, 9, 11, 5], [200, 11]] \<and>
   fetch_klines Some (Response 200 (Rows [[100, 10, 12, 9, 11, 5], [200, 11]]))
     = (Inr [] :: exn + (int, int) candle list) \<and>
   \<not> (400 \<le> (200::nat) \<and> (200::nat) < 600) \<and>
   list_all (convertible (Some :: int \<Rightarrow> int option))
     [[100, 10, 12, 9, 11, 5], [200, 11, 13, 10, 12, 6]] \<and>
   fetch_klines Some (Response 200 (Rows [[100, 10, 12, 9, 11, 5], [200, 11, 13, 10, 12, 6]]))
     = Inr [(100::int, 10::int, 12, 9, 11, 5), (200, 11, 13, 10, 12, 6)] \<and>
   (\<exists>st payload_rows.
       Response 200 (Rows [[100::int, 10, 12, 9, 11, 5], [200, 11, 13, 10, 12, 6]])
         = Response st (Rows payload_rows) \<and>
       map open_time [(100::int, 10::int, 12::int, 9::int, 11::int, 5::int), (200, 11, 13, 10, 12, 6)]
         = map (\<lambda>row. row ! 0) payload_rows)"
proof -
  have bad: "\<exists>row \<in> set [[100, 10, 12, 9, 11, 5], [200::int, 11]].
       isl (format_candle Some row :: exn + (int, int) candle)"
    by (simp add: format_candle_def py_index_def py_float_def)
  have nc: "\<not> list_all (convertible (Some :: int \<Rightarrow> int option))
      [[100, 10, 12, 9, 11, 5], [200, 11]]"
    by (simp add: convertible_def)
  have ac: "list_all (convertible (Some :: int \<Rightarrow> int option))
      [[100, 10, 12, 9, 11, 5], [200, 11, 13, 10, 12, 6]]"
    by (simp add: convertible_def)
  have st: "\<not> (400 \<le> (200::nat) \<and> (200::nat) < 600)"
    by simp
  have rc: "map (row_candle (Some :: int \<Rightarrow> int option))
      [[100, 10, 12, 9, 11, 5], [200, 11, 13, 10, 12, 6]]
      = [(100, 10, 12, 9, 11, 5), (200, 11, 13, 10, 12, 6)]"
    by (simp add: row_candle_def)
  note w = fetch_klines_outcomes
    [where to_float = "Some :: int \<Rightarrow> int option"
       and response = "Response 200 (Rows [[100, 10, 12, 9, 11, 5], [200, 11, 13, 10, 12, 6]])"
       and status = 500 and body = "Rows [[100, 10, 12, 9, 11, 5]]"
       and rows = "[[100, 10, 12, 9, 11, 5], [200, 11]]"
       and xs = "[(100, 10, 12, 9, 11, 5), (200, 11, 13, 10, 12, 6)]"]
  note w' = fetch_klines_outcomes
    [where to_float = "Some :: int \<Rightarrow> int option"
       and response = "Response 200 (Rows [[100, 10, 12, 9, 11, 5], [200, 11, 13, 10, 12, 6]])"
       and status = 200 and body = "Rows [[100, 10, 12, 9, 11, 5]]"
       and rows = "[[100, 10, 12, 9, 11, 5], [200, 11]]"
       and xs = "[(100, 10, 12, 9, 11, 5), (200, 11, 13, 10, 12, 6)]"]
  note w'' = fetch_klines_outcomes
    [where to_float = "Some :: int \<Rightarrow> int option"
       and response = "Response 200 (Rows [[100, 10, 12, 9, 11, 5], [200, 11, 13, 10, 12, 6]])"
       and status = 200 and body = "Rows [[100, 10, 12, 9, 11, 5]]"
       and rows = "[[100, 10, 12, 9, 11, 5], [200, 11, 13, 10, 12, 6]]"
       and xs = "[(100, 10, 12, 9, 11, 5), (200, 11, 13, 10, 12, 6)]"]
  have w3: "fetch_klines Some (Response 500 (Rows [[100, 10, 12, 9, 11, 5]]))
     = (Inr [] :: exn + (int, int) candle list)"
    using w by simp
  have b2: "fetch_klines Some (Response 200 (Rows [[100, 10, 12, 9, 11, 5], [200, 11]]))
     = (Inr [] :: exn + (int, int) candle list)"
    using w' nc by blast
  have good: "fetch_klines Some (Response 200 (Rows [[100, 10, 12, 9, 11, 5], [200, 11, 13, 10, 12, 6]]))
     = Inr [(100::int, 10::int, 12, 9, 11, 5), (200, 11, 13, 10, 12, 6)]"
    using w'' ac st unfolding rc by blast
  have w6: "\<exists>st payload_rows.
       Response 200 (Rows [[100::int, 10, 12, 9, 11, 5], [200, 11, 13, 10, 12, 6]])
         = Response st (Rows payload_rows) \<and>
       map open_time [(100::int, 10::int, 12::int, 9::int, 11::int, 5::int), (200, 11, 13, 10, 12, 6)]
         = map (\<lambda>row. row ! 0) payload_rows"
    using w good by blast
  show ?thesis
    using w3 bad nc b2 ac good w6 by simp
qed

lemma deque_append_length: "length d \<le> maxlen \<Longrightarrow> length (deque_append x d) \<le> maxlen"
  by (auto simp: deque_append_def Let_def)

lemma deque_extend_length: "length d \<le> maxlen \<Longrightarrow> length (deque_extend xs d) \<le> maxlen"
  unfolding deque_extend_def
  by (induction xs arbitrary: d) (simp_all add: deque_append_length)

lemma store_length: "length d \<le> maxlen \<Longrightarrow> length (store c d) \<le> maxlen"
  by (auto simp: store_def deque_append_length)

lemma on_message_length:
  "length (data s) \<le> maxlen \<Longrightarrow> on_message to_float w message s = Inr s' \<Longrightarrow>
   length (data s') \<le> maxlen"
  by (auto simp: on_message_def then_r_eq_Inr store_length split: if_splits)

lemma deliver_length:
  "length (data s) \<le> maxlen \<Longrightarrow> length (data (deliver to_float frames s)) \<le> maxlen"
proof (induction frames arbitrary: s)
  case Nil
  then show ?case by simp
next
  case (Cons p frames)
  obtain w message where p: "p = (w, message)"
    by (cases p)
  show ?case
  proof (cases "on_message to_float w message s")
    case (Inl e)
    then show ?thesis using Cons p by simp
  next
    case (Inr s')
    then have "length (data s') \<le> maxlen"
      using Cons.prems on_message_length by blast
    then show ?thesis using Cons.IH Inr p by simp
  qed
qed

lemma load_initial_data_length:
  "length (data s) \<le> maxlen \<Longrightarrow> load_initial_data to_float response s = Inr s' \<Longrightarrow>
   length (data s') \<le> maxlen"
  by (auto simp: load_initial_data_def then_r_eq_Inr deque_extend_length split: if_splits)

lemma ascending_sorted_wrt:
  "ascending d = sorted_wrt (\<lambda>a b. open_time a < open_time b) d"
  by (induction d rule: ascending.induct) (auto intro: less_trans)

lemma ascending_front_least:
  "ascending d \<Longrightarrow> \<forall>x \<in> set (tl d). open_time (hd d) < open_time x"
  by (cases d) (simp_all add: ascending_sorted_wrt)

lemma ascending_tl: "ascending d \<Longrightarrow> ascending (tl d)"
  by (cases d) (simp_all add: ascending_sorted_wrt)

lemma ascending_drop: "ascending d \<Longrightarrow> ascending (drop n d)"
  by (simp add: ascending_sorted_wrt sorted_wrt_drop)

lemma ascending_snoc:
  "ascending d \<Longrightarrow> d = [] \<or> open_time (last d) < open_time c \<Longrightarrow> ascending (d @ [c])"
  by (induction d rule: ascending.induct) auto

lemma ascending_replace_last:
  assumes "ascending d" and "d \<noteq> []" and "open_time c = open_time (last d)"
  shows "ascending (butlast d @ [c])"
proof -
  have "sorted_wrt (\<lambda>a b. open_time a < open_time b) (butlast d @ [last d])"
    using assms(1,2) by (simp add: ascending_sorted_wrt)
  then have "sorted_wrt (\<lambda>a b. open_time a < open_time b) (butlast d @ [c])"
    unfolding sorted_wrt_append using assms(3) by simp
  then show ?thesis
    by (simp add: ascending_sorted_wrt)
qed

lemma ascending_deque_append:
  assumes "ascending d" and "d = [] \<or> open_time (last d) < open_time c"
  shows "ascending (deque_append c d)"
proof -
  have "ascending (d @ [c])"
    using assms by (rule ascending_snoc)
  then show ?thesis
    using ascending_tl [of "d @ [c]"] by (simp add: deque_append_def Let_def)
qed

lemma ascending_store:
  assumes "ascending d" and "d = [] \<or> open_time (last d) \<le> open_time c"
  shows "ascending (store c d)"
proof (cases "d \<noteq> [] \<and> open_time c = open_time (last d)")
  case True
  then have "store c d = butlast d @ [c]"
    by (intro store_same) simp_all
  then show ?thesis
    using ascending_replace_last [OF assms(1)] True by simp
next
  case False
  then have "store c d = deque_append c d"
    by (intro store_other) auto
  moreover have "d = [] \<or> open_time (last d) < open_time c"
    using assms(2) False by auto
  ultimately show ?thesis
    using ascending_deque_append [OF assms(1)] by simp
qed

lemma deque_extend_drop:
  "length d \<le> maxlen \<Longrightarrow> deque_extend xs d = drop (length (d @ xs) - maxlen) (d @ xs)"
proof (induction xs arbitrary: d)
  case Nil
  then show ?case by (simp add: deque_extend_def)
next
  case (Cons x xs)
  have l: "length (deque_append x d) \<le> maxlen"
    using Cons.prems by (rule deque_append_length)
  have "deque_extend (x # xs) d = deque_extend xs (deque_append x d)"
    by (simp add: deque_extend_def)
  also have "\<dots> = drop (length (deque_append x d @ xs) - maxlen) (deque_append x d @ xs)"
    using Cons.IH [OF l] .
  also have "\<dots> = drop (length (d @ x # xs) - maxlen) (d @ x # xs)"
  proof (cases "length d < maxlen")
    case True
    then show ?thesis by (simp add: deque_append_room)
  next
    case False
    then have full: "length d = maxlen"
      using Cons.prems by simp
    then obtain y ys where d: "d = y # ys"
      by (cases d) (simp_all add: maxlen_def)
    have a: "deque_append x d @ xs = ys @ x # xs"
      using full by (simp add: deque_append_full d)
    have b: "length (ys @ x # xs) - maxlen = length xs"
      using full d by simp
    have c: "length (d @ x # xs) - maxlen = Suc (length xs)"
      using full by simp
    show ?thesis
      unfolding a b c by (simp add: d)
  qed
  finally show ?case .
qed

lemma ascending_seed:
  assumes "ascending klines"
    and "load_initial_data to_float response ChartPanel_init = Inr s"
    and "fetch_klines to_float response = Inr klines"
  shows "ascending (data s)"
proof (cases "klines = []")
  case True
  then have "s = ChartPanel_init"
    using assms(2,3) by (simp add: load_initial_data_def)
  then show ?thesis by (simp add: ChartPanel_init_def)
next
  case False
  then have "data s = deque_extend klines []"
    using assms(2,3) by (auto simp: load_initial_data_def ChartPanel_init_def)
  also have "\<dots> = drop (length klines - maxlen) klines"
    using deque_extend_drop [of "[]" klines] by simp
  finally show ?thesis
    using assms(1) by (simp add: ascending_drop)
qed

lemma load_initial_data_returns: "\<exists>s'. load_initial_data to_float response s = Inr s'"
  using fetch_klines_returns [of to_float response]
  by (auto simp: load_initial_data_def)

section \<open>Capacity and eviction\<close>

text \<open>
  C3, as stated, fails in the choice of the evicted element. A snapshot of sixty candles
  with the open times 100 to 159 fills the window and the live feed starts. A frame with
  the open time 50 arrives and is appended, which evicts the candle 100: the window now
  holds 101 to 159 followed by 50, sixty elements. The next frame, with the open time
  400, is later than the last element and is appended. The element evicted is the
  front one, 101; the candle 50, the oldest by open time, stays in the window.
\<close>

theorem evicted_is_front_not_oldest:
  "then_r (load_initial_data Some (Response 200 (Rows sixty_rows)) ChartPanel_init) (\<lambda>s1.
   then_r (on_message Some 1 frame_50 (start_websocket 1 s1)) (\<lambda>s2.
   then_r (on_message Some 1 frame_400 s2) (\<lambda>s3.
     Inr (length (data s2), map open_time (data s2),
          length (data s3), map open_time (data s3)))))
   = Inr (60, map int [101..<160] @ [50],
          60, map int [102..<160] @ [50, 400])"
  by code_simp

text \<open>
  C3, amended. The window never holds more than 60 elements: the bound is kept by the
  snapshot, by every frame and by every sequence of frames. Once the window holds 60
  elements, every append (a frame that the active panel decodes and whose open time
  differs from the open time of the last element) evicts exactly one element, the front
  one, which is the element that has been in the window longest, and leaves the length
  at 60. The front element is the oldest by open time whenever the window ascends by
  open time.
\<close>

theorem capacity_and_front_eviction:
  fixes s :: "('v::linorder, 'f) ChartPanel"
  shows
  "maxlen = 60 \<and>
   length (data (ChartPanel_init :: ('v, 'f) ChartPanel)) \<le> maxlen \<and>
   (length (data s) \<le> maxlen \<and> load_initial_data to_float response s = Inr s1 \<longrightarrow>
      length (data s1) \<le> maxlen) \<and>
   (length (data s) \<le> maxlen \<and> on_message to_float w message s = Inr s2 \<longrightarrow>
      length (data s2) \<le> maxlen) \<and>
   (length (data s) \<le> maxlen \<longrightarrow> length (data (deliver to_float frames s)) \<le> maxlen) \<and>
   (is_active s \<and> decode to_float message = Inr c \<and> length (data s) = maxlen \<and>
    open_time c \<noteq> open_time (last (data s)) \<longrightarrow>
      (\<exists>s3. on_message to_float w message s = Inr s3 \<and>
            data s3 = tl (data s) @ [c] \<and>
            length (data s3) = maxlen \<and>
            (ascending (data s) \<longrightarrow>
               (\<forall>x \<in> set (tl (data s)). open_time (hd (data s)) < open_time x))))"
proof (intro conjI impI)
  show "maxlen = 60"
    by (rule maxlen_def)
  show "length (data (ChartPanel_init :: ('v, 'f) ChartPanel)) \<le> maxlen"
    by (simp add: ChartPanel_init_def)
next
  assume "length (data s) \<le> maxlen \<and> load_initial_data to_float response s = Inr s1"
  then show "length (data s1) \<le> maxlen"
    using load_initial_data_length by blast
next
  assume "length (data s) \<le> maxlen \<and> on_message to_float w message s = Inr s2"
  then show "length (data s2) \<le> maxlen"
    using on_message_length by blast
next
  assume "length (data s) \<le> maxlen"
  then show "length (data (deliver to_float frames s)) \<le> maxlen"
    by (rule deliver_length)
next
  assume h: "is_active s \<and> decode to_float message = Inr c \<and> length (data s) = maxlen \<and>
    open_time c \<noteq> open_time (last (data s))"
  let ?s3 = "s\<lparr>data := store c (data s), scheduled := scheduled s @ [(0, DrawChart)]\<rparr>"
  have step: "on_message to_float w message s = Inr ?s3"
    using h by (intro on_message_active) simp_all
  have "store c (data s) = deque_append c (data s)"
    using h by (intro store_other) simp
  then have st: "store c (data s) = tl (data s) @ [c]"
    using h by (simp add: deque_append_full)
  have ne: "data s \<noteq> []"
    using h by (auto simp: maxlen_def)
  have len: "length (tl (data s) @ [c]) = maxlen"
    using h ne by (simp add: maxlen_def)
  have least: "\<forall>x \<in> set (tl (data s)). open_time (hd (data s)) < open_time x"
    if "ascending (data s)"
    using that by (rule ascending_front_least)
  show "\<exists>s3. on_message to_float w message s = Inr s3 \<and>
            data s3 = tl (data s) @ [c] \<and>
            length (data s3) = maxlen \<and>
            (ascending (data s) \<longrightarrow>
               (\<forall>x \<in> set (tl (data s)). open_time (hd (data s)) < open_time x))"
    using step st len least by (intro exI [of _ ?s3]) simp
qed


theorem capacity_and_front_eviction_witness:
  "length (data sixty_panel) \<le> maxlen \<and>
   (\<exists>s1. load_initial_data Some (Response 200 (Rows three_rows)) sixty_panel = Inr s1 \<and>
      length (data s1) \<le> 60) \<and>
   length (data (deliver Some [(1, frame_400)] sixty_panel)) \<le> 60 \<and>
   is_active sixty_panel \<and>
   decode Some frame_400 = Inr (400, 13, 15, 12, 14, 4) \<and>
   length (data sixty_panel) = maxlen \<and>
   open_time (400::int, 13::int, 15::int, 12::int, 14::int, 4::int)
     \<noteq> open_time (last (data sixty_panel)) \<and>
   ascending (data sixty_panel) \<and>
   (\<exists>s3. on_message Some 1 frame_400 sixty_panel = Inr s3 \<and>
      data s3 = tl (data sixty_panel) @ [(400, 13, 15, 12, 14, 4)] \<and>
      length (data s3) = 60 \<and>
      (\<forall>x \<in> set (tl (data sixty_panel)). open_time (hd (data sixty_panel)) < open_time x))"
proof -
  have a: "is_active sixty_panel"
    by (simp add: sixty_panel_def)
  have d: "decode Some frame_400 = Inr (400, 13, 15, 12, 14, 4)"
    unfolding frame_400_def by (rule decode_kline_frame)
  have l: "length (data sixty_panel) = maxlen"
    by (simp add: sixty_panel_def maxlen_def)
  have k: "open_time (400::int, 13::int, 15::int, 12::int, 14::int, 4::int)
     \<noteq> open_time (last (data sixty_panel))"
    by code_simp
  have asc: "ascending (data sixty_panel)"
    by code_simp
  obtain s1 where s1: "load_initial_data Some (Response 200 (Rows three_rows)) sixty_panel = Inr s1"
    using load_initial_data_returns by blast
  obtain s2 where s2: "on_message Some 1 frame_400 sixty_panel = Inr s2"
    using on_message_active [OF a d] by blast
  note t = capacity_and_front_eviction
    [where s = sixty_panel and to_float = Some and response = "Response 200 (Rows three_rows)"
       and ?s1.0 = s1 and w = 1 and message = frame_400 and ?s2.0 = s2
       and frames = "[(1, frame_400)]" and c = "(400, 13, 15, 12, 14, 4)"]
  have m: "maxlen = 60"
    using t by blast
  have t1: "length (data s1) \<le> 60"
    using t l s1 m by simp
  have t3: "length (data (deliver Some [(1, frame_400)] sixty_panel)) \<le> 60"
    using t l m by simp
  have t4: "\<exists>s3. on_message Some 1 frame_400 sixty_panel = Inr s3 \<and>
      data s3 = tl (data sixty_panel) @ [(400, 13, 15, 12, 14, 4)] \<and>
      length (data s3) = 60 \<and>
      (\<forall>x \<in> set (tl (data sixty_panel)). open_time (hd (data sixty_panel)) < open_time x)"
    using t a d l k asc m by auto
  show ?thesis
    using a d l k asc s1 t1 t3 t4 by simp
qed

lemma ascending_distinct: "ascending d \<Longrightarrow> distinct (map open_time d)"
proof -
  assume "ascending d"
  then have "sorted_wrt (<) (map open_time d)"
    by (simp add: ascending_sorted_wrt sorted_wrt_map)
  then show ?thesis
    using strict_sorted_iff by blast
qed

lemma start_websocket_data: "data (start_websocket new_ws s) = data s"
  by (simp add: start_websocket_def)

section \<open>Order of the window\<close>

text \<open>
  C2, as stated, fails. A snapshot with the open times 100, 200, 300 is loaded (the
  window ascends) and the live feed starts. A frame with the open time 250 arrives and
  is appended after 300: the window no longer ascends. A frame with the open time 300
  follows; it differs from the last element's 250 and is appended too, so the key 300
  is in the window twice.
\<close>

theorem late_frame_breaks_order:
  "then_r (load_initial_data Some (Response 200 (Rows three_rows)) ChartPanel_init) (\<lambda>s1.
   then_r (on_message Some 1 frame_250 (start_websocket 1 s1)) (\<lambda>s2.
   then_r (on_message Some 1 frame_300a s2) (\<lambda>s3.
     Inr (ascending (data s1),
          map open_time (data s2), ascending (data s2),
          map open_time (data s3), distinct (map open_time (data s3))))))
   = Inr (True, [100, 200, 300, 250], False, [100, 200, 300, 250, 300], False)"
  by code_simp

text \<open>
  C2, amended. The order is kept by the runs in which nothing arrives out of order:
  when the candles of the snapshot ascend strictly by open time, and every frame that
  the active panel decodes has an open time not less than that of the last element of
  the window at that moment, then in every state of the run adjacent elements of the
  window ascend strictly by open time, and no open time occurs twice.
\<close>

theorem order_kept_by_in_order_runs:
  assumes "in_order to_float s"
  shows "ascending (data s) \<and> distinct (map open_time (data s))"
proof -
  have "ascending (data s)"
    using assms
  proof (induction rule: in_order.induct)
    case constructed
    show ?case by (simp add: ChartPanel_init_def)
  next
    case (seeded response klines s)
    then show ?case by (intro ascending_seed)
  next
    case (started s new_ws)
    then show ?case by (simp add: start_websocket_data)
  next
    case (stopped s)
    then show ?case by (simp add: stop_data)
  next
    case (frame s w message s')
    show ?case
    proof (cases "is_active s")
      case False
      then have "s' = s"
        using frame.hyps(2) by (simp add: on_message_inactive)
      then show ?thesis using frame.IH by simp
    next
      case True
      then obtain c where c: "decode to_float message = Inr c"
        and s': "s' = s\<lparr>data := store c (data s), scheduled := scheduled s @ [(0, DrawChart)]\<rparr>"
        using frame.hyps(2) by (auto simp: on_message_def then_r_eq_Inr)
      have "data s = [] \<or> open_time (last (data s)) \<le> open_time c"
        using frame.hyps(3) True c by blast
      then have "ascending (store c (data s))"
        using frame.IH by (intro ascending_store)
      then show ?thesis by (simp add: s')
    qed
  qed
  then show ?thesis
    by (simp add: ascending_distinct)
qed

theorem order_kept_by_in_order_runs_witness:
  "\<exists>s1 s2.
     load_initial_data Some (Response 200 (Rows three_rows)) ChartPanel_init = Inr s1 \<and>
     on_message Some 1 frame_400 (start_websocket 1 s1) = Inr s2 \<and>
     in_order Some s2 \<and>
     map open_time (data s2) = [100, 200, 300, 400] \<and>
     ascending (data s2) \<and> distinct (map open_time (data s2))"
proof -
  define s1 :: "(int, int) ChartPanel" where
    "s1 = \<lparr>is_active = False, ws = None, data = three_candles,
           scheduled = [(0, DrawChart), (100, StartWebsocket)], closed_ws = []\<rparr>"
  define s2 :: "(int, int) ChartPanel" where
    "s2 = \<lparr>is_active = True, ws = Some 1, data = three_candles @ [(400, 13, 15, 12, 14, 4)],
           scheduled = [(0, DrawChart), (100, StartWebsocket), (0, DrawChart)], closed_ws = []\<rparr>"
  have f: "fetch_klines Some (Response 200 (Rows three_rows)) = Inr three_candles"
    by code_simp
  have asc: "ascending three_candles"
    by code_simp
  have l: "load_initial_data Some (Response 200 (Rows three_rows)) ChartPanel_init = Inr s1"
    unfolding s1_def by code_simp
  have m: "on_message Some 1 frame_400 (start_websocket 1 s1) = Inr s2"
    unfolding s1_def s2_def by code_simp
  have d: "decode Some frame_400 = Inr (400, 13, 15, 12, 14, 4)"
    unfolding frame_400_def by (rule decode_kline_frame)
  have r1: "in_order Some s1"
    using f asc l by (rule in_order.seeded)
  have r2: "in_order Some (start_websocket 1 s1)"
    using r1 by (rule in_order.started)
  have r3: "in_order Some s2"
    using r2 m
  proof (rule in_order.frame)
    show "\<forall>c. is_active (start_websocket 1 s1) \<and> decode Some frame_400 = Inr c \<longrightarrow>
        data (start_websocket 1 s1) = [] \<or> open_time (last (data (start_websocket 1 s1))) \<le> open_time c"
      using d by (simp add: start_websocket_data s1_def three_candles_def open_time_def)
  qed
  have k: "map open_time (data s2) = [100, 200, 300, 400]"
    by (simp add: s2_def three_candles_def open_time_def)
  have o: "ascending (data s2) \<and> distinct (map open_time (data s2))"
    using order_kept_by_in_order_runs [OF r3] .
  show ?thesis
    using l m r3 k o by (intro exI [of _ s1] exI [of _ s2]) simp
qed

end
